theory Spec2Isabelle
  imports Complex_Main
begin

section \<open>Data model\<close>

text \<open>
  The documents of the store, as the schemas of \<^verbatim>\<open>models/Product\<close> and
  \<^verbatim>\<open>models/Order\<close> declare them. Only the fields that the route handlers read or
  write are kept. Object ids are strings in their canonical form and are compared as
  such. Stock levels and quantities are integers. Monetary amounts are JavaScript
  numbers in the source; here they are exact rationals, so \<open>0.08\<close> is \<open>8 / 100\<close>
  and \<open>9.99\<close> is \<open>999 / 100\<close>, and the rounding error of binary floating point is
  not part of the model.
\<close>

type_synonym oid = string

record variant =
  v_size :: string
  v_design :: string
  v_stock :: int

record image =
  img_url :: string
  img_isPrimary :: bool

record product =
  p_id :: oid
  p_title :: string
  p_price :: rat
  p_active :: bool
  p_images :: "image list"
  p_variants :: "variant list"

datatype payment_status = PayPending | PayPaid | PayFailed | PayRefunded | PayCompleted

datatype order_status =
  Pending | Confirmed | Processing | Shipped | Delivered | Cancelled | Refunded

record order_item =
  oi_product :: oid
  oi_title :: string
  oi_price :: rat
  oi_quantity :: int
  oi_size :: string
  oi_design :: string
  oi_image :: "string option"

record payment_info =
  pi_status :: payment_status
  pi_amount :: rat
  pi_razorpayOrderId :: string
  pi_razorpayPaymentId :: "string option"
  pi_paidAt :: "int option"

record order =
  o_id :: oid
  o_orderNumber :: "string option"
  o_user :: oid
  o_items :: "order_item list"
  o_subtotal :: rat
  o_tax :: rat
  o_shipping :: rat
  o_discount :: rat
  o_total :: rat
  o_status :: order_status
  o_paymentInfo :: payment_info
  o_createdAt :: int

text \<open>
  The document store: two collections, each a list of documents. \<open>findById\<close> returns
  the first document with the id; \<open>save\<close> of a loaded document writes it back in
  place of the stored one.
\<close>

record db =
  orders :: "order list"
  products :: "product list"

definition findProductById :: "product list \<Rightarrow> oid \<Rightarrow> product option" where
  "findProductById ps i = find (\<lambda>p. p_id p = i) ps"

definition findOrderById :: "order list \<Rightarrow> oid \<Rightarrow> order option" where
  "findOrderById os i = find (\<lambda>x. o_id x = i) os"

definition saveOrder :: "order \<Rightarrow> order list \<Rightarrow> order list" where
  "saveOrder ord os = map (\<lambda>x. if o_id x = o_id ord then ord else x) os"

text \<open>
  \<^verbatim>\<open>product.save()\<close> runs the schema validators first. The only validated field
  that a handler changes is a variant's stock, declared with \<^verbatim>\<open>min: 0\<close>; a
  negative stock makes \<open>save\<close> throw a validation error (\<open>None\<close>) and nothing
  is written.
\<close>

definition product_valid :: "product \<Rightarrow> bool" where
  "product_valid p = list_all (\<lambda>v. 0 \<le> v_stock v) (p_variants p)"

definition saveProduct :: "product \<Rightarrow> product list \<Rightarrow> product list option" where
  "saveProduct p ps =
     (if product_valid p then Some (map (\<lambda>q. if p_id q = p_id p then p else q) ps)
      else None)"

text \<open>
  \<^verbatim>\<open>product.variants.find(v => v.size === item.variant.size && v.design === item.variant.design)\<close>
  and the assignment \<^verbatim>\<open>variant.stock -= item.quantity\<close> to the element found,
  which is the first match.
\<close>

definition variant_matches :: "string \<Rightarrow> string \<Rightarrow> variant \<Rightarrow> bool" where
  "variant_matches sz ds v = (v_size v = sz \<and> v_design v = ds)"

fun decrement_first :: "string \<Rightarrow> string \<Rightarrow> int \<Rightarrow> variant list \<Rightarrow> variant list" where
  "decrement_first sz ds q [] = []"
| "decrement_first sz ds q (v # vs) =
     (if variant_matches sz ds v then v\<lparr>v_stock := v_stock v - q\<rparr> # vs
      else v # decrement_first sz ds q vs)"

section \<open>HTTP responses and the platform\<close>

record validated_item =
  vi_product :: oid
  vi_title :: string
  vi_price :: rat
  vi_quantity :: int
  vi_size :: string
  vi_design :: string
  vi_image :: "string option"

datatype body =
  Message string
  | ValidationFailed "string list"
  | CartTotals "validated_item list" rat rat rat rat
  | PaymentVerified oid
  | StatusOk
  | ErrorMsg string

datatype response = Json nat body | Send nat string | RedirectTo string

text \<open>
  \<^verbatim>\<open>config/config.js\<close>: the gateway credentials. The secrets come from the process
  environment; the model takes them as strings.
\<close>

record config =
  keyId :: string
  keySecret :: string
  webhookSecret :: string

subsection \<open>Webhook events\<close>

text \<open>
  The payment entity of a webhook event, reduced to what the handlers read:
  \<^verbatim>\<open>payment.id\<close> and \<^verbatim>\<open>payment.notes?.orderId\<close> (\<open>None\<close> when the notes or
  the field are absent).
\<close>

record payment =
  pay_id :: string
  pay_notes_orderId :: "string option"

datatype event =
  PaymentCaptured payment
  | PaymentFailed payment
  | OrderPaid string
  | OtherEvent string

text \<open>
  What the handlers use from Node and its libraries: \<open>hmac_hex key msg\<close> is
  \<^verbatim>\<open>crypto.createHmac('sha256', key).update(msg).digest('hex')\<close>, and \<open>json_event\<close>
  is \<^verbatim>\<open>JSON.parse\<close> followed by the reads of \<^verbatim>\<open>event.event\<close> and of the entity
  under \<^verbatim>\<open>event.payload\<close>, \<open>None\<close> when any of them throws. Both are parameters:
  every theorem below holds for any choice of them.
\<close>

record platform =
  hmac_hex :: "string \<Rightarrow> string \<Rightarrow> string"
  json_event :: "string \<Rightarrow> event option"

section \<open>The webhook route\<close>

text \<open>
  The stock loop of \<^verbatim>\<open>handlePaymentCaptured\<close>. Each round loads the product again,
  finds the variant, and decrements and saves only when the stock covers the quantity.
  A \<open>save\<close> that throws leaves the loop through the handler's \<^verbatim>\<open>catch\<close>; what was
  saved before stays saved.
\<close>

definition capture_item :: "product list \<Rightarrow> order_item \<Rightarrow> product list option" where
  "capture_item ps item =
     (case findProductById ps (oi_product item) of
        None \<Rightarrow> Some ps
      | Some product \<Rightarrow>
          (case find (variant_matches (oi_size item) (oi_design item)) (p_variants product) of
             None \<Rightarrow> Some ps
           | Some variant \<Rightarrow>
               if oi_quantity item \<le> v_stock variant
               then saveProduct
                      (product\<lparr>p_variants :=
                         decrement_first (oi_size item) (oi_design item) (oi_quantity item)
                           (p_variants product)\<rparr>) ps
               else Some ps))"

fun capture_stock :: "product list \<Rightarrow> order_item list \<Rightarrow> product list" where
  "capture_stock ps [] = ps"
| "capture_stock ps (item # rest) =
     (case capture_item ps item of
        None \<Rightarrow> ps
      | Some ps' \<Rightarrow> capture_stock ps' rest)"

definition handlePaymentCaptured :: "int \<Rightarrow> db \<Rightarrow> payment \<Rightarrow> db" where
  "handlePaymentCaptured now d payment =
     (case pay_notes_orderId payment of
        None \<Rightarrow> d
      | Some orderId \<Rightarrow>
          if orderId = [] then d
          else
            (case findOrderById (orders d) orderId of
               None \<Rightarrow> d
             | Some ord \<Rightarrow>
                 let ord' = ord\<lparr>o_paymentInfo := (o_paymentInfo ord)
                                  \<lparr>pi_status := PayPaid,
                                   pi_razorpayPaymentId := Some (pay_id payment),
                                   pi_paidAt := Some now\<rparr>,
                                o_status := Confirmed\<rparr>;
                     d1 = d\<lparr>orders := saveOrder ord' (orders d)\<rparr>
                 in d1\<lparr>products := capture_stock (products d1) (o_items ord')\<rparr>))"

definition handlePaymentFailed :: "db \<Rightarrow> payment \<Rightarrow> db" where
  "handlePaymentFailed d payment =
     (case pay_notes_orderId payment of
        None \<Rightarrow> d
      | Some orderId \<Rightarrow>
          if orderId = [] then d
          else
            (case findOrderById (orders d) orderId of
               None \<Rightarrow> d
             | Some ord \<Rightarrow>
                 d\<lparr>orders := saveOrder
                      (ord\<lparr>o_paymentInfo := (o_paymentInfo ord)\<lparr>pi_status := PayFailed\<rparr>,
                           o_status := Cancelled\<rparr>) (orders d)\<rparr>))"

definition handleOrderPaid :: "int \<Rightarrow> db \<Rightarrow> string \<Rightarrow> db" where
  "handleOrderPaid now d razorpayOrderId =
     (case find (\<lambda>x. pi_razorpayOrderId (o_paymentInfo x) = razorpayOrderId) (orders d) of
        None \<Rightarrow> d
      | Some ord \<Rightarrow>
          d\<lparr>orders := saveOrder
               (ord\<lparr>o_paymentInfo := (o_paymentInfo ord)
                      \<lparr>pi_status := PayPaid, pi_paidAt := Some now\<rparr>,
                    o_status := Confirmed\<rparr>) (orders d)\<rparr>)"

text \<open>
  \<^verbatim>\<open>router.post('/razorpay', express.raw(...))\<close>. The request is the
  \<^verbatim>\<open>X-Razorpay-Signature\<close> header (\<open>None\<close> when absent) and the raw body.
  \<open>now\<close> is the clock read by \<^verbatim>\<open>new Date()\<close>.
\<close>

record webhook_request =
  wh_signature :: "string option"
  wh_body :: string

definition dispatch_event :: "int \<Rightarrow> db \<Rightarrow> event \<Rightarrow> db" where
  "dispatch_event now d ev =
     (case ev of
        PaymentCaptured p \<Rightarrow> handlePaymentCaptured now d p
      | PaymentFailed p \<Rightarrow> handlePaymentFailed d p
      | OrderPaid rid \<Rightarrow> handleOrderPaid now d rid
      | OtherEvent _ \<Rightarrow> d)"

definition razorpay_webhook ::
  "platform \<Rightarrow> config \<Rightarrow> int \<Rightarrow> db \<Rightarrow> webhook_request \<Rightarrow> response \<times> db" where
  "razorpay_webhook pf cfg now d req =
     (let expectedSignature = hmac_hex pf (webhookSecret cfg) (wh_body req) in
      if wh_signature req \<noteq> Some expectedSignature
      then (Send 400 ''Webhook signature verification failed'', d)
      else
        (case json_event pf (wh_body req) of
           None \<Rightarrow> (Json 500 (ErrorMsg ''Webhook processing failed''), d)
         | Some ev \<Rightarrow> (Json 200 StatusOk, dispatch_event now d ev)))"

section \<open>JavaScript strings and numbers\<close>

text \<open>
  The string operations of the source. A \<open>char\<close> stands for one code unit, and
  the white space skipped by \<^verbatim>\<open>parseInt\<close> is the ASCII white space.
\<close>

definition digit_char :: "nat \<Rightarrow> char" where
  "digit_char d = ''0123456789'' ! (d mod 10)"

fun dec_nat :: "nat \<Rightarrow> string" where
  "dec_nat n = (if n < 10 then [digit_char n] else dec_nat (n div 10) @ [digit_char (n mod 10)])"

declare dec_nat.simps [simp del]

text \<open>\<^verbatim>\<open>Number.prototype.toString\<close> on an integer or on \<^verbatim>\<open>NaN\<close> (\<open>None\<close>).\<close>

definition int_toString :: "int \<Rightarrow> string" where
  "int_toString i = (if i < 0 then CHR ''-'' # dec_nat (nat (- i)) else dec_nat (nat i))"

definition number_toString :: "int option \<Rightarrow> string" where
  "number_toString x = (case x of None \<Rightarrow> ''NaN'' | Some i \<Rightarrow> int_toString i)"

definition padStart :: "nat \<Rightarrow> char \<Rightarrow> string \<Rightarrow> string" where
  "padStart n c s = replicate (n - length s) c @ s"

text \<open>\<^verbatim>\<open>s.slice(-k)\<close>: the last \<open>k\<close> code units, or all of \<open>s\<close> when it is shorter.\<close>

definition slice_last :: "nat \<Rightarrow> string \<Rightarrow> string" where
  "slice_last k s = drop (length s - k) s"

definition is_js_space :: "char \<Rightarrow> bool" where
  "is_js_space c = (c \<in> set [CHR '' '', CHR 0x09, CHR 0x0A, CHR 0x0B, CHR 0x0C, CHR 0x0D])"

definition digit_value :: "char \<Rightarrow> nat option" where
  "digit_value c = map_of (zip ''0123456789abcdef'' [0 ..< 16] @ zip ''ABCDEF'' [10 ..< 16]) c"

definition is_digit :: "nat \<Rightarrow> char \<Rightarrow> bool" where
  "is_digit radix c = (case digit_value c of None \<Rightarrow> False | Some v \<Rightarrow> v < radix)"

text \<open>
  \<^verbatim>\<open>parseInt(s)\<close> without a radix: leading white space, an optional sign, an optional
  \<^verbatim>\<open>0x\<close> prefix that selects radix 16, then the longest run of digits; \<^verbatim>\<open>NaN\<close>
  (\<open>None\<close>) when that run is empty.
\<close>

definition parseInt :: "string \<Rightarrow> int option" where
  "parseInt s =
     (let t = dropWhile is_js_space s;
          neg = (take 1 t = ''-'');
          u = (if take 1 t = ''-'' \<or> take 1 t = ''+'' then drop 1 t else t);
          radix = (if take 2 u = ''0x'' \<or> take 2 u = ''0X'' then 16 else 10);
          w = (if radix = 16 then drop 2 u else u);
          ds = takeWhile (is_digit radix) w;
          n = foldl (\<lambda>a c. a * radix + the (digit_value c)) 0 ds
      in if ds = [] then None else Some (if neg then - int n else int n))"

text \<open>\<^verbatim>\<open>str.includes(sub)\<close>.\<close>

fun str_includes :: "string \<Rightarrow> string \<Rightarrow> bool" where
  "str_includes [] sub = (sub = [])"
| "str_includes (c # cs) sub = (take (length sub) (c # cs) = sub \<or> str_includes cs sub)"

text \<open>
  \<^verbatim>\<open>Math.round(x * 100) / 100\<close>, with \<^verbatim>\<open>Math.round\<close> rounding halves up.
\<close>

definition Math_round :: "rat \<Rightarrow> int" where
  "Math_round x = \<lfloor>x + 1 / 2\<rfloor>"

definition round2 :: "rat \<Rightarrow> rat" where
  "round2 x = of_int (Math_round (x * 100)) / 100"

text \<open>
  The \<^verbatim>\<open>isMongoId\<close> validator: 24 hexadecimal characters.
\<close>

definition isMongoId :: "string \<Rightarrow> bool" where
  "isMongoId s = (length s = 24 \<and> list_all (is_digit 16) s)"

section \<open>Cart validation\<close>

text \<open>
  An item of the request body of \<^verbatim>\<open>POST /cart/validate\<close>. \<open>ci_variant\<close> is
  \<open>None\<close> when the item carries no \<^verbatim>\<open>variant\<close> object. \<open>ci_price\<close> is a
  price the client may attach to the item; the body may hold any further fields.
\<close>

record cart_item =
  ci_productId :: string
  ci_quantity :: int
  ci_variant :: "(string \<times> string) option"
  ci_price :: "rat option"

text \<open>The validator chain of the route; its messages, in the order of the chain.\<close>

definition validate_errors :: "cart_item list \<Rightarrow> string list" where
  "validate_errors items =
     (if items = [] then [''Cart cannot be empty''] else [])
     @ map (\<lambda>_. ''Invalid product ID'') (filter (\<lambda>item. \<not> isMongoId (ci_productId item)) items)
     @ map (\<lambda>_. ''Invalid quantity'')
         (filter (\<lambda>item. \<not> (1 \<le> ci_quantity item \<and> ci_quantity item \<le> 10)) items)"

text \<open>
  \<^verbatim>\<open>product.variants.find(v => v.size === item.variant.size && ...)\<close> on a request
  item. The callback reads \<^verbatim>\<open>item.variant.size\<close>, which throws a \<^verbatim>\<open>TypeError\<close>
  when the item has no variant object and the product has a variant to test
  (\<open>None\<close>).
\<close>

definition find_requested :: "(string \<times> string) option \<Rightarrow> variant list \<Rightarrow> variant option option" where
  "find_requested rv vs =
     (case vs of
        [] \<Rightarrow> Some None
      | _ # _ \<Rightarrow>
          (case rv of
             None \<Rightarrow> None
           | Some (sz, ds) \<Rightarrow> Some (find (variant_matches sz ds) vs)))"

text \<open>
  \<^verbatim>\<open>product.images.find(img => img.isPrimary)?.url || product.images[0]?.url\<close>
\<close>

definition image_url :: "image list \<Rightarrow> string option" where
  "image_url imgs =
     (let first = (case imgs of [] \<Rightarrow> None | i # _ \<Rightarrow> Some (img_url i)) in
      case find img_isPrimary imgs of
        None \<Rightarrow> first
      | Some i \<Rightarrow> if img_url i = [] then first else Some (img_url i))"

definition dq :: string where
  "dq = [CHR 0x22]"

text \<open>
  The loop over the items: an early \<^verbatim>\<open>return res.status(...)\<close> is \<open>Inl\<close>, the
  end of the loop \<open>Inr\<close> with \<^verbatim>\<open>validatedItems\<close> and \<^verbatim>\<open>subtotal\<close>.
\<close>

fun validate_items ::
  "product list \<Rightarrow> cart_item list \<Rightarrow> validated_item list \<Rightarrow> rat
     \<Rightarrow> response + validated_item list \<times> rat" where
  "validate_items ps [] validatedItems subtotal = Inr (validatedItems, subtotal)"
| "validate_items ps (item # rest) validatedItems subtotal =
     (case findProductById ps (ci_productId item) of
        None \<Rightarrow>
          Inl (Json 400 (Message
            (''Product '' @ dq @ ci_productId item @ dq @ '' is no longer available'')))
      | Some product \<Rightarrow>
          if \<not> p_active product then
            Inl (Json 400 (Message
              (''Product '' @ dq @ ci_productId item @ dq @ '' is no longer available'')))
          else
            (case find_requested (ci_variant item) (p_variants product) of
               None \<Rightarrow> Inl (Json 500 (Message ''Server error''))
             | Some None \<Rightarrow>
                 Inl (Json 400 (Message
                   (''Variant for '' @ dq @ p_title product @ dq @ '' is no longer available'')))
             | Some (Some variant) \<Rightarrow>
                 if v_stock variant < ci_quantity item then
                   Inl (Json 400 (Message
                     (''Only '' @ int_toString (v_stock variant) @ '' items available for ''
                      @ dq @ p_title product @ dq
                      @ '' ('' @ v_size variant @ '', '' @ v_design variant @ '')'')))
                 else
                   validate_items ps rest
                     (validatedItems @
                        [\<lparr>vi_product = p_id product, vi_title = p_title product,
                          vi_price = p_price product, vi_quantity = ci_quantity item,
                          vi_size = v_size variant, vi_design = v_design variant,
                          vi_image = image_url (p_images product)\<rparr>])
                     (subtotal + p_price product * of_int (ci_quantity item))))"

definition cart_validate :: "db \<Rightarrow> cart_item list \<Rightarrow> response" where
  "cart_validate d items =
     (let errors = validate_errors items in
      if errors \<noteq> [] then Json 400 (ValidationFailed errors)
      else
        (case validate_items (products d) items [] 0 of
           Inl r \<Rightarrow> r
         | Inr (validatedItems, subtotal) \<Rightarrow>
             let tax = subtotal * (8 / 100);
                 shipping = (if 50 \<le> subtotal then 0 else 999 / 100);
                 total = subtotal + tax + shipping
             in Json 200 (CartTotals validatedItems
                  (round2 subtotal) (round2 tax) (round2 shipping) (round2 total))))"

section \<open>Payment verification\<close>

text \<open>
  A request to \<^verbatim>\<open>POST /cart/verify-payment\<close>: \<open>vr_user\<close> is \<^verbatim>\<open>req.user._id\<close>
  (\<open>None\<close> when nobody is signed in), \<open>vr_xhr\<close> and \<open>vr_accept\<close> are what
  \<^verbatim>\<open>requireAuth\<close> reads, the rest are the fields of the body (a missing field is
  the empty string).
\<close>

record verify_request =
  vr_user :: "oid option"
  vr_xhr :: bool
  vr_accept :: "string option"
  razorpay_payment_id :: string
  razorpay_order_id :: string
  razorpay_signature :: string
  vr_orderId :: string

definition verify_errors :: "verify_request \<Rightarrow> string list" where
  "verify_errors req =
     (if razorpay_payment_id req = [] then [''Payment ID is required''] else [])
     @ (if razorpay_order_id req = [] then [''Order ID is required''] else [])
     @ (if razorpay_signature req = [] then [''Signature is required''] else [])
     @ (if \<not> isMongoId (vr_orderId req) then [''Invalid order ID''] else [])"

text \<open>
  The stock loop of the route. It has no test of the stock before the decrement; a
  stock that would become negative is refused by \<open>save\<close>, which throws (\<open>Inl\<close>,
  with what was saved so far).
\<close>

definition confirm_item :: "product list \<Rightarrow> order_item \<Rightarrow> product list option" where
  "confirm_item ps item =
     (case findProductById ps (oi_product item) of
        None \<Rightarrow> Some ps
      | Some product \<Rightarrow>
          (case find (variant_matches (oi_size item) (oi_design item)) (p_variants product) of
             None \<Rightarrow> Some ps
           | Some variant \<Rightarrow>
               saveProduct
                 (product\<lparr>p_variants :=
                    decrement_first (oi_size item) (oi_design item) (oi_quantity item)
                      (p_variants product)\<rparr>) ps))"

fun confirm_stock :: "product list \<Rightarrow> order_item list \<Rightarrow> product list + product list" where
  "confirm_stock ps [] = Inr ps"
| "confirm_stock ps (item # rest) =
     (case confirm_item ps item of
        None \<Rightarrow> Inl ps
      | Some ps' \<Rightarrow> confirm_stock ps' rest)"

definition verify_payment ::
  "platform \<Rightarrow> config \<Rightarrow> db \<Rightarrow> verify_request \<Rightarrow> response \<times> db" where
  "verify_payment pf cfg d req =
     (case vr_user req of
        None \<Rightarrow>
          (if vr_xhr req
              \<or> (case vr_accept req of None \<Rightarrow> False | Some a \<Rightarrow> str_includes a ''application/json'')
           then Json 401 (Message ''Authentication required'')
           else RedirectTo ''/auth/login'', d)
      | Some uid \<Rightarrow>
          let errors = verify_errors req in
          if errors \<noteq> [] then (Json 400 (ValidationFailed errors), d)
          else
            let expectedSignature =
                  hmac_hex pf (keySecret cfg)
                    (razorpay_order_id req @ ''|'' @ razorpay_payment_id req)
            in
            if expectedSignature \<noteq> razorpay_signature req
            then (Json 400 (Message ''Payment verification failed''), d)
            else
              (case findOrderById (orders d) (vr_orderId req) of
                 None \<Rightarrow> (Json 404 (Message ''Order not found''), d)
               | Some ord \<Rightarrow>
                   if o_user ord \<noteq> uid then (Json 403 (Message ''Unauthorized''), d)
                   else
                     let ord' = ord\<lparr>o_paymentInfo := (o_paymentInfo ord)
                                      \<lparr>pi_status := PayCompleted,
                                       pi_razorpayPaymentId := Some (razorpay_payment_id req)\<rparr>,
                                    o_status := Confirmed\<rparr>;
                         d1 = d\<lparr>orders := saveOrder ord' (orders d)\<rparr>
                     in
                     (case confirm_stock (products d1) (o_items ord') of
                        Inl ps \<Rightarrow> (Json 500 (Message ''Server error''), d1\<lparr>products := ps\<rparr>)
                      | Inr ps \<Rightarrow> (Json 200 (PaymentVerified (o_id ord')), d1\<lparr>products := ps\<rparr>))))"

section \<open>Order numbers\<close>

text \<open>
  The \<^verbatim>\<open>pre('save')\<close> hook of the order schema. The clock gives what the hook
  reads from \<^verbatim>\<open>new Date()\<close>: \<^verbatim>\<open>getFullYear()\<close>, \<^verbatim>\<open>getMonth()\<close> (from 0),
  \<^verbatim>\<open>getDate()\<close>, local midnight and the midnight after it.
\<close>

record clock =
  c_fullYear :: nat
  c_month :: nat
  c_date :: nat
  c_today :: int
  c_tomorrow :: int

text \<open>
  \<^verbatim>\<open>findOne({createdAt: {$gte: today, $lt: tomorrow}}).sort({createdAt: -1})\<close>: the
  order of the day created last. Among orders created at the same instant the store
  may return any; the model returns the first of them in the collection.
\<close>

definition lastOrderOfDay :: "order list \<Rightarrow> int \<Rightarrow> int \<Rightarrow> order option" where
  "lastOrderOfDay os today tomorrow =
     (case filter (\<lambda>x. today \<le> o_createdAt x \<and> o_createdAt x < tomorrow) os of
        [] \<Rightarrow> None
      | x # xs \<Rightarrow> Some (foldl (\<lambda>best y. if o_createdAt best < o_createdAt y then y else best) x xs))"

definition next_sequence :: "order option \<Rightarrow> int option" where
  "next_sequence lastOrder =
     (case lastOrder of
        None \<Rightarrow> Some 1
      | Some lo \<Rightarrow>
          (case o_orderNumber lo of
             None \<Rightarrow> Some 1
           | Some num \<Rightarrow>
               if num = [] then Some 1
               else map_option (\<lambda>lastSequence. lastSequence + 1) (parseInt (slice_last 3 num))))"

definition order_pre_save :: "clock \<Rightarrow> order list \<Rightarrow> bool \<Rightarrow> order \<Rightarrow> order" where
  "order_pre_save clk os isNew this =
     (if isNew \<and> (o_orderNumber this = None \<or> o_orderNumber this = Some [])
      then
        let year = slice_last 2 (dec_nat (c_fullYear clk));
            month = padStart 2 (CHR ''0'') (dec_nat (c_month clk + 1));
            day = padStart 2 (CHR ''0'') (dec_nat (c_date clk));
            lastOrder = lastOrderOfDay os (c_today clk) (c_tomorrow clk);
            sequence = next_sequence lastOrder
        in this\<lparr>o_orderNumber :=
                  Some (''ORD'' @ year @ month @ day
                        @ padStart 3 (CHR ''0'') (number_toString sequence))\<rparr>
      else this)"

section \<open>Notions used to state the properties\<close>

text \<open>The stored stock of a variant, as the handlers find it: the first match.\<close>

definition stock_of :: "product list \<Rightarrow> oid \<Rightarrow> string \<Rightarrow> string \<Rightarrow> int option" where
  "stock_of ps i sz ds =
     (case findProductById ps i of
        None \<Rightarrow> None
      | Some p \<Rightarrow> map_option v_stock (find (variant_matches sz ds) (p_variants p)))"

text \<open>The stored products satisfy the schema's \<^verbatim>\<open>min: 0\<close> on stock.\<close>

definition stock_valid :: "product list \<Rightarrow> bool" where
  "stock_valid ps = list_all product_valid ps"

text \<open>The quantity an order asks of one variant, over all its items.\<close>

definition ordered_quantity :: "order_item list \<Rightarrow> oid \<Rightarrow> string \<Rightarrow> string \<Rightarrow> int" where
  "ordered_quantity items i sz ds =
     sum_list (map oi_quantity
       (filter (\<lambda>item. oi_product item = i \<and> oi_size item = sz \<and> oi_design item = ds) items))"

text \<open>Webhook requests delivered one after the other, each at its own time.\<close>

fun deliveries :: "platform \<Rightarrow> config \<Rightarrow> db \<Rightarrow> (int \<times> webhook_request) list \<Rightarrow> db" where
  "deliveries pf cfg d [] = d"
| "deliveries pf cfg d ((now, req) # rest) =
     deliveries pf cfg (snd (razorpay_webhook pf cfg now d req)) rest"

text \<open>
  The three grounds of rejection of a cart item, in the words of the specification:
  the product is missing or inactive, the requested variant does not exist on the
  product, or the requested quantity exceeds the stock of that variant.
\<close>

definition item_unavailable :: "product list \<Rightarrow> cart_item \<Rightarrow> bool" where
  "item_unavailable ps item =
     (case findProductById ps (ci_productId item) of
        None \<Rightarrow> True
      | Some p \<Rightarrow>
          \<not> p_active p \<or>
          (case ci_variant item of
             None \<Rightarrow> True
           | Some (sz, ds) \<Rightarrow>
               (case find (variant_matches sz ds) (p_variants p) of
                  None \<Rightarrow> True
                | Some v \<Rightarrow> v_stock v < ci_quantity item)))"

text \<open>
  The priced item of the specification: the requested variant and quantity with the
  id, title, price and image of the stored product; \<open>None\<close> when the product is not
  stored or the item names no variant.
\<close>

definition priced_item :: "product list \<Rightarrow> cart_item \<Rightarrow> validated_item option" where
  "priced_item ps item =
     (case findProductById ps (ci_productId item) of
        None \<Rightarrow> None
      | Some p \<Rightarrow>
          (case ci_variant item of
             None \<Rightarrow> None
           | Some (sz, ds) \<Rightarrow>
               Some \<lparr>vi_product = p_id p, vi_title = p_title p, vi_price = p_price p,
                     vi_quantity = ci_quantity item, vi_size = sz, vi_design = ds,
                     vi_image = image_url (p_images p)\<rparr>))"

text \<open>The subtotal of a cart at the stored prices.\<close>

definition stored_price :: "product list \<Rightarrow> oid \<Rightarrow> rat" where
  "stored_price ps i = (case findProductById ps i of None \<Rightarrow> 0 | Some p \<Rightarrow> p_price p)"

definition cart_subtotal :: "product list \<Rightarrow> cart_item list \<Rightarrow> rat" where
  "cart_subtotal ps items =
     (\<Sum>item \<leftarrow> items. stored_price ps (ci_productId item) * of_int (ci_quantity item))"


text \<open>A cart item without the price the client attached.\<close>

definition without_price :: "cart_item \<Rightarrow> cart_item" where
  "without_price item = item\<lparr>ci_price := None\<rparr>"

text \<open>Numbers written with exactly two and exactly three decimal digits.\<close>

definition two_digits :: "nat \<Rightarrow> string" where
  "two_digits n = [digit_char (n div 10), digit_char n]"

definition three_digits :: "nat \<Rightarrow> string" where
  "three_digits n = [digit_char (n div 100), digit_char (n div 10), digit_char n]"


section \<open>A small store\<close>

text \<open>
  Concrete values on which the handlers are run below. The digest of
  \<open>demo_platform\<close> stands in for HMAC-SHA256 in these runs only.
\<close>

definition demo_platform :: platform where
  "demo_platform =
     \<lparr>hmac_hex = (\<lambda>key msg. key @ ''/'' @ msg),
      json_event = (\<lambda>body.
        if body = ''captured''
        then Some (PaymentCaptured
               \<lparr>pay_id = ''pay_1'', pay_notes_orderId = Some ''0000000000000000000000a1''\<rparr>)
        else None)\<rparr>"

definition demo_config :: config where
  "demo_config = \<lparr>keyId = ''rzp_test'', keySecret = ''ks'', webhookSecret = ''ws''\<rparr>"

definition demo_product :: product where
  "demo_product =
     \<lparr>p_id = ''0000000000000000000000b1'', p_title = ''Rose Chrome'', p_price = 40,
      p_active = True, p_images = [],
      p_variants = [\<lparr>v_size = ''M'', v_design = ''rose'', v_stock = 20\<rparr>,
                    \<lparr>v_size = ''S'', v_design = ''rose'', v_stock = 3\<rparr>]\<rparr>"

definition demo_order :: order where
  "demo_order =
     \<lparr>o_id = ''0000000000000000000000a1'', o_orderNumber = Some ''ORD261102999'',
      o_user = ''0000000000000000000000c1'',
      o_items = [\<lparr>oi_product = ''0000000000000000000000b1'', oi_title = ''Rose Chrome'',
                  oi_price = 40, oi_quantity = 2, oi_size = ''M'', oi_design = ''rose'',
                  oi_image = None\<rparr>],
      o_subtotal = 80, o_tax = 32 / 5, o_shipping = 0, o_discount = 0, o_total = 432 / 5,
      o_status = Pending,
      o_paymentInfo = \<lparr>pi_status = PayPending, pi_amount = 432 / 5,
                       pi_razorpayOrderId = ''order_1'', pi_razorpayPaymentId = None,
                       pi_paidAt = None\<rparr>,
      o_createdAt = 1000\<rparr>"

definition demo_db :: db where
  "demo_db = \<lparr>orders = [demo_order], products = [demo_product]\<rparr>"

definition demo_cart_item :: cart_item where
  "demo_cart_item =
     \<lparr>ci_productId = ''0000000000000000000000b1'', ci_quantity = 1,
      ci_variant = Some (''M'', ''rose''), ci_price = None\<rparr>"

definition demo_verify :: verify_request where
  "demo_verify =
     \<lparr>vr_user = Some ''0000000000000000000000c1'', vr_xhr = True, vr_accept = None,
      razorpay_payment_id = ''pay_1'', razorpay_order_id = ''order_1'',
      razorpay_signature = ''ks/order_1|pay_1'', vr_orderId = ''0000000000000000000000a1''\<rparr>"

definition demo_clock :: clock where
  "demo_clock = \<lparr>c_fullYear = 2026, c_month = 10, c_date = 2, c_today = 0, c_tomorrow = 86400000\<rparr>"

definition demo_capture :: webhook_request where
  "demo_capture = \<lparr>wh_signature = Some ''ws/captured'', wh_body = ''captured''\<rparr>"

definition demo_payment :: payment where
  "demo_payment = \<lparr>pay_id = ''pay_1'', pay_notes_orderId = Some ''0000000000000000000000a1''\<rparr>"

definition demo_priced :: validated_item where
  "demo_priced =
     \<lparr>vi_product = ''0000000000000000000000b1'', vi_title = ''Rose Chrome'', vi_price = 40,
      vi_quantity = 1, vi_size = ''M'', vi_design = ''rose'', vi_image = None\<rparr>"


definition demo_forged :: verify_request where
  "demo_forged = demo_verify\<lparr>razorpay_signature := ''forged''\<rparr>"

definition demo_anonymous :: verify_request where
  "demo_anonymous = demo_forged\<lparr>vr_user := None\<rparr>"



definition demo_earlier :: order where
  "demo_earlier = demo_order\<lparr>o_orderNumber := Some ''ORD261102041''\<rparr>"

definition demo_new :: order where
  "demo_new = demo_order\<lparr>o_id := ''0000000000000000000000a2'', o_orderNumber := None\<rparr>"

section \<open>Stock under the webhook loop\<close>

lemma find_decrement_same:
  "find (variant_matches sz ds) (decrement_first sz ds q vs) =
     map_option (\<lambda>v. v\<lparr>v_stock := v_stock v - q\<rparr>) (find (variant_matches sz ds) vs)"
  by (induction vs) (auto simp: variant_matches_def)

lemma find_decrement_other:
  "(sz', ds') \<noteq> (sz, ds) \<Longrightarrow>
   find (variant_matches sz' ds') (decrement_first sz ds q vs) = find (variant_matches sz' ds') vs"
  by (induction vs) (auto simp: variant_matches_def)

lemma decrement_first_valid:
  "list_all (\<lambda>v. 0 \<le> v_stock v) vs \<Longrightarrow>
   find (variant_matches sz ds) vs = Some v \<Longrightarrow> q \<le> v_stock v \<Longrightarrow>
   list_all (\<lambda>v. 0 \<le> v_stock v) (decrement_first sz ds q vs)"
  by (induction vs) (auto split: if_splits)

lemma findProductById_Some:
  "findProductById ps i = Some p \<Longrightarrow> p \<in> set ps \<and> p_id p = i"
  unfolding findProductById_def by (induction ps) (auto split: if_splits)

lemma findProductById_replace_other:
  "j \<noteq> p_id p' \<Longrightarrow>
   findProductById (map (\<lambda>q. if p_id q = p_id p' then p' else q) ps) j = findProductById ps j"
  unfolding findProductById_def by (induction ps) auto

lemma findProductById_replace_same:
  "findProductById ps (p_id p') = Some p \<Longrightarrow>
   findProductById (map (\<lambda>q. if p_id q = p_id p' then p' else q) ps) (p_id p') = Some p'"
  unfolding findProductById_def by (induction ps) (auto split: if_splits)

lemma findProductById_replace:
  "findProductById ps i = Some p \<Longrightarrow> p_id p' = i \<Longrightarrow>
   findProductById (map (\<lambda>q. if p_id q = p_id p' then p' else q) ps) j =
     (if j = i then Some p' else findProductById ps j)"
  using findProductById_replace_other[of j p' ps] findProductById_replace_same[of ps p' p]
  by auto

lemma capture_item_total:
  assumes "stock_valid ps"
  shows "\<exists>ps'. capture_item ps item = Some ps'"
proof (cases "findProductById ps (oi_product item)")
  case None
  then show ?thesis by (simp add: capture_item_def)
next
  case (Some p)
  then have pv: "product_valid p"
    using assms findProductById_Some[OF Some] by (auto simp: stock_valid_def list_all_iff)
  show ?thesis
  proof (cases "find (variant_matches (oi_size item) (oi_design item)) (p_variants p)")
    case None
    with Some show ?thesis by (simp add: capture_item_def)
  next
    case (Some v)
    with \<open>findProductById ps (oi_product item) = Some p\<close> pv show ?thesis
      using decrement_first_valid[of "p_variants p" "oi_size item" "oi_design item" v "oi_quantity item"]
      by (auto simp: capture_item_def saveProduct_def product_valid_def)
  qed
qed

lemma capture_item_valid:
  "stock_valid ps \<Longrightarrow> capture_item ps item = Some ps' \<Longrightarrow> stock_valid ps'"
  by (auto simp: capture_item_def saveProduct_def stock_valid_def list_all_iff
      split: option.splits if_splits)

lemma capture_item_stock:
  assumes "stock_valid ps"
  shows "\<exists>ps'. capture_item ps item = Some ps' \<and>
           stock_of ps' i sz ds =
             (case stock_of ps i sz ds of
                None \<Rightarrow> None
              | Some s \<Rightarrow>
                  if (i, sz, ds) = (oi_product item, oi_size item, oi_design item)
                     \<and> oi_quantity item \<le> s
                  then Some (s - oi_quantity item) else Some s)"
proof -
  obtain ps' where c: "capture_item ps item = Some ps'"
    using capture_item_total[OF assms] by blast
  show ?thesis
  proof (cases "findProductById ps (oi_product item)")
    case None
    with c show ?thesis by (auto simp: capture_item_def stock_of_def split: option.splits)
  next
    case P: (Some p)
    show ?thesis
    proof (cases "find (variant_matches (oi_size item) (oi_design item)) (p_variants p)")
      case None
      with c P show ?thesis by (auto simp: capture_item_def stock_of_def split: option.splits)
    next
      case V: (Some v)
      show ?thesis
      proof (cases "oi_quantity item \<le> v_stock v")
        case False
        with c P V show ?thesis
          by (auto simp: capture_item_def stock_of_def split: option.splits)
      next
        case True
        let ?p' = "p\<lparr>p_variants := decrement_first (oi_size item) (oi_design item)
                       (oi_quantity item) (p_variants p)\<rparr>"
        have ps': "ps' = map (\<lambda>q. if p_id q = p_id ?p' then ?p' else q) ps"
          using c P V True by (auto simp: capture_item_def saveProduct_def split: if_splits)
        have pid: "p_id ?p' = oi_product item"
          using findProductById_Some[OF P] by simp
        have f: "findProductById ps' j =
                   (if j = oi_product item then Some ?p' else findProductById ps j)" for j
          unfolding ps' using findProductById_replace[OF P pid] .
        show ?thesis
        proof (cases "i = oi_product item")
          case False
          with c f show ?thesis by (auto simp: stock_of_def split: option.splits)
        next
          case I: True
          show ?thesis
          proof (cases "(sz, ds) = (oi_size item, oi_design item)")
            case True
            with c f I P V \<open>oi_quantity item \<le> v_stock v\<close> show ?thesis
              by (auto simp: stock_of_def find_decrement_same)
          next
            case False
            then have "find (variant_matches sz ds) (p_variants ?p') =
                       find (variant_matches sz ds) (p_variants p)"
              using find_decrement_other[of sz ds "oi_size item" "oi_design item"] by auto
            with c f I P False show ?thesis
              by (auto simp: stock_of_def split: option.splits)
          qed
        qed
      qed
    qed
  qed
qed

lemma capture_stock_valid:
  "stock_valid ps \<Longrightarrow> stock_valid (capture_stock ps items)"
  by (induction items arbitrary: ps) (auto split: option.splits dest: capture_item_valid)

lemma ordered_quantity_nonneg:
  "\<forall>item \<in> set items. 0 \<le> oi_quantity item \<Longrightarrow> 0 \<le> ordered_quantity items i sz ds"
  unfolding ordered_quantity_def by (induction items) auto

lemma ordered_quantity_Cons:
  "ordered_quantity (item # items) i sz ds =
     (if (i, sz, ds) = (oi_product item, oi_size item, oi_design item)
      then oi_quantity item else 0) + ordered_quantity items i sz ds"
  unfolding ordered_quantity_def by auto

lemma capture_stock_total:
  assumes "stock_valid ps"
    and "\<forall>item \<in> set items. 0 \<le> oi_quantity item"
    and "stock_of ps i sz ds = Some s"
    and "ordered_quantity items i sz ds \<le> s"
  shows "stock_of (capture_stock ps items) i sz ds = Some (s - ordered_quantity items i sz ds)"
  using assms
proof (induction items arbitrary: ps s)
  case Nil
  then show ?case by (simp add: ordered_quantity_def)
next
  case (Cons item items)
  obtain ps' where c: "capture_item ps item = Some ps'"
    and st: "stock_of ps' i sz ds =
               (if (i, sz, ds) = (oi_product item, oi_size item, oi_design item)
                   \<and> oi_quantity item \<le> s
                then Some (s - oi_quantity item) else Some s)"
    using capture_item_stock[OF Cons.prems(1), of item i sz ds] Cons.prems(3) by auto
  have v': "stock_valid ps'" using capture_item_valid[OF Cons.prems(1) c] .
  have q: "\<forall>item \<in> set items. 0 \<le> oi_quantity item" using Cons.prems(2) by simp
  have rest: "0 \<le> ordered_quantity items i sz ds" using ordered_quantity_nonneg[OF q] .
  let ?k = "if (i, sz, ds) = (oi_product item, oi_size item, oi_design item)
            then oi_quantity item else 0"
  have tot: "ordered_quantity (item # items) i sz ds = ?k + ordered_quantity items i sz ds"
    by (rule ordered_quantity_Cons)
  have st': "stock_of ps' i sz ds = Some (s - ?k)"
    using st Cons.prems(4) rest tot by (auto split: if_splits)
  have le: "ordered_quantity items i sz ds \<le> s - ?k"
    using Cons.prems(4) tot by linarith
  have "stock_of (capture_stock ps' items) i sz ds = Some (s - ?k - ordered_quantity items i sz ds)"
    using Cons.IH[OF v' q st' le] .
  then show ?case using c tot by simp
qed

lemma findOrderById_Some:
  "findOrderById os i = Some x \<Longrightarrow> x \<in> set os \<and> o_id x = i"
  unfolding findOrderById_def by (induction os) (auto split: if_splits)

lemma findOrderById_saveOrder:
  "findOrderById os (o_id x') = Some x \<Longrightarrow> findOrderById (saveOrder x' os) (o_id x') = Some x'"
  unfolding findOrderById_def saveOrder_def by (induction os) (auto split: if_splits)

lemma handlePaymentCaptured_found:
  assumes "pay_notes_orderId pay = Some orderId" "orderId \<noteq> []"
    and "findOrderById (orders d) orderId = Some ord"
  shows "products (handlePaymentCaptured now d pay) = capture_stock (products d) (o_items ord)"
    and "findOrderById (orders (handlePaymentCaptured now d pay)) orderId =
           Some (ord\<lparr>o_paymentInfo := (o_paymentInfo ord)
                      \<lparr>pi_status := PayPaid, pi_razorpayPaymentId := Some (pay_id pay),
                       pi_paidAt := Some now\<rparr>,
                     o_status := Confirmed\<rparr>)"
proof -
  have i: "o_id ord = orderId" using findOrderById_Some[OF assms(3)] by simp
  show "products (handlePaymentCaptured now d pay) = capture_stock (products d) (o_items ord)"
    using assms by (simp add: handlePaymentCaptured_def Let_def)
  let ?o = "ord\<lparr>o_paymentInfo := (o_paymentInfo ord)
                      \<lparr>pi_status := PayPaid, pi_razorpayPaymentId := Some (pay_id pay),
                       pi_paidAt := Some now\<rparr>,
                     o_status := Confirmed\<rparr>"
  have "findOrderById (saveOrder ?o (orders d)) (o_id ?o) = Some ?o"
    by (rule findOrderById_saveOrder[of _ _ ord]) (simp add: i assms(3))
  then show "findOrderById (orders (handlePaymentCaptured now d pay)) orderId = Some ?o"
    using assms i by (simp add: handlePaymentCaptured_def Let_def)
qed

lemma handlePaymentCaptured_valid:
  "stock_valid (products d) \<Longrightarrow> stock_valid (products (handlePaymentCaptured now d pay))"
  by (auto simp: handlePaymentCaptured_def Let_def capture_stock_valid split: option.splits)

lemma dispatch_event_valid:
  "stock_valid (products d) \<Longrightarrow> stock_valid (products (dispatch_event now d ev))"
  by (cases ev)
     (auto simp: dispatch_event_def handlePaymentCaptured_valid handlePaymentFailed_def
        handleOrderPaid_def split: option.splits)

lemma razorpay_webhook_valid:
  "stock_valid (products d) \<Longrightarrow> stock_valid (products (snd (razorpay_webhook pf cfg now d req)))"
  by (auto simp: razorpay_webhook_def Let_def dispatch_event_valid split: option.splits)

lemma deliveries_valid:
  "stock_valid (products d) \<Longrightarrow> stock_valid (products (deliveries pf cfg d reqs))"
  by (induction reqs arbitrary: d) (auto simp: razorpay_webhook_valid)

lemma stock_valid_iff:
  "stock_valid ps \<longleftrightarrow> (\<forall>p \<in> set ps. \<forall>v \<in> set (p_variants p). 0 \<le> v_stock v)"
  by (simp add: stock_valid_def product_valid_def list_all_iff)

section \<open>Properties of the webhook route\<close>

text \<open>
  Claim C3. A request to \<^verbatim>\<open>POST /webhooks/razorpay\<close> whose
  \<^verbatim>\<open>X-Razorpay-Signature\<close> header is not the hex HMAC of the raw body under the
  webhook secret is answered 400 and leaves every order and product as it was. The
  answer does not depend on \<open>json_event\<close>: the body is neither parsed nor dispatched.
\<close>

theorem forged_webhook_signature_rejected:
  assumes "wh_signature req \<noteq> Some (hmac_hex pf (webhookSecret cfg) (wh_body req))"
  shows "razorpay_webhook pf cfg now d req =
           (Send 400 ''Webhook signature verification failed'', d)"
  using assms by (simp add: razorpay_webhook_def)

theorem forged_webhook_signature_rejected_witness:
  "wh_signature \<lparr>wh_signature = Some ''forged'', wh_body = ''captured''\<rparr>
     \<noteq> Some (hmac_hex demo_platform (webhookSecret demo_config)
              (wh_body \<lparr>wh_signature = Some ''forged'', wh_body = ''captured''\<rparr>))
   \<and> razorpay_webhook demo_platform demo_config 5 demo_db
       \<lparr>wh_signature = Some ''forged'', wh_body = ''captured''\<rparr> =
       (Send 400 ''Webhook signature verification failed'', demo_db)"
proof -
  have h: "wh_signature \<lparr>wh_signature = Some ''forged'', wh_body = ''captured''\<rparr>
     \<noteq> Some (hmac_hex demo_platform (webhookSecret demo_config)
              (wh_body \<lparr>wh_signature = Some ''forged'', wh_body = ''captured''\<rparr>))"
    by (simp add: demo_platform_def demo_config_def)
  show ?thesis using h forged_webhook_signature_rejected[OF h] by simp
qed

text \<open>
  Claim C10. With the stored stock non-negative, one round of the stock loop of
  \<^verbatim>\<open>handlePaymentCaptured\<close> never throws, takes the ordered quantity from the stock
  of the item's variant exactly when that stock is at least the quantity, and leaves
  every other stock, and this one otherwise, unchanged. Hence after any sequence of
  webhook deliveries every stored variant still has a non-negative stock.
\<close>

theorem webhook_capture_keeps_stock_nonneg:
  assumes "\<forall>p \<in> set (products d). \<forall>v \<in> set (p_variants p). 0 \<le> v_stock v"
  shows "(\<exists>ps'. capture_item (products d) item = Some ps' \<and>
            (\<forall>i sz ds. stock_of ps' i sz ds =
               (case stock_of (products d) i sz ds of
                  None \<Rightarrow> None
                | Some s \<Rightarrow>
                    if (i, sz, ds) = (oi_product item, oi_size item, oi_design item)
                       \<and> oi_quantity item \<le> s
                    then Some (s - oi_quantity item) else Some s)))
       \<and> (\<forall>p \<in> set (products (deliveries pf cfg d reqs)).
            \<forall>v \<in> set (p_variants p). 0 \<le> v_stock v)"
proof -
  have v: "stock_valid (products d)" using assms by (simp add: stock_valid_iff)
  obtain ps' where c: "capture_item (products d) item = Some ps'"
    using capture_item_total[OF v] by blast
  have "\<forall>i sz ds. stock_of ps' i sz ds =
               (case stock_of (products d) i sz ds of
                  None \<Rightarrow> None
                | Some s \<Rightarrow>
                    if (i, sz, ds) = (oi_product item, oi_size item, oi_design item)
                       \<and> oi_quantity item \<le> s
                    then Some (s - oi_quantity item) else Some s)"
    using capture_item_stock[OF v, of item] c by auto
  moreover have "\<forall>p \<in> set (products (deliveries pf cfg d reqs)).
            \<forall>v \<in> set (p_variants p). 0 \<le> v_stock v"
    using deliveries_valid[OF v, of pf cfg reqs] by (simp add: stock_valid_iff)
  ultimately show ?thesis using c by blast
qed

theorem webhook_capture_keeps_stock_nonneg_witness:
  "stock_valid (products demo_db)
   \<and> stock_valid (products (deliveries demo_platform demo_config demo_db
         [(5, demo_capture), (6, demo_capture)]))"
proof -
  have h: "\<forall>p \<in> set (products demo_db). \<forall>v \<in> set (p_variants p). 0 \<le> v_stock v"
    by (simp add: demo_db_def demo_product_def)
  have "\<forall>p \<in> set (products (deliveries demo_platform demo_config demo_db
                  [(5, demo_capture), (6, demo_capture)])).
         \<forall>v \<in> set (p_variants p). 0 \<le> v_stock v"
    using webhook_capture_keeps_stock_nonneg[OF h, of _ demo_platform demo_config
        "[(5, demo_capture), (6, demo_capture)]"]
    by blast
  with h show ?thesis by (simp add: stock_valid_iff)
qed

text \<open>
  Claim C4. The same \<^verbatim>\<open>payment.captured\<close> event delivered twice: when the stock
  of a variant covers what the order asks of it at each of the two deliveries (that
  is, twice the ordered quantity at the start), the first delivery takes the ordered
  quantity and the second takes it again. The order's quantities are non-negative and
  the stored stock satisfies the schema, as the schemas require.
\<close>

theorem duplicate_capture_decrements_twice:
  assumes "wh_signature req = Some (hmac_hex pf (webhookSecret cfg) (wh_body req))"
    and "json_event pf (wh_body req) = Some (PaymentCaptured pay)"
    and "pay_notes_orderId pay = Some orderId" and "orderId \<noteq> []"
    and "findOrderById (orders d) orderId = Some ord"
    and "\<forall>p \<in> set (products d). \<forall>v \<in> set (p_variants p). 0 \<le> v_stock v"
    and "\<forall>item \<in> set (o_items ord). 0 \<le> oi_quantity item"
    and "stock_of (products d) i sz ds = Some s"
    and "2 * ordered_quantity (o_items ord) i sz ds \<le> s"
  shows "stock_of (products (snd (razorpay_webhook pf cfg t1 d req))) i sz ds =
           Some (s - ordered_quantity (o_items ord) i sz ds)
       \<and> stock_of (products (snd (razorpay_webhook pf cfg t2
                     (snd (razorpay_webhook pf cfg t1 d req)) req))) i sz ds =
           Some (s - 2 * ordered_quantity (o_items ord) i sz ds)"
proof -
  let ?q = "ordered_quantity (o_items ord) i sz ds"
  let ?d1 = "handlePaymentCaptured t1 d pay"
  have route: "snd (razorpay_webhook pf cfg t d' req) = handlePaymentCaptured t d' pay" for t d'
    using assms(1,2) by (simp add: razorpay_webhook_def dispatch_event_def)
  have v: "stock_valid (products d)" using assms(6) by (simp add: stock_valid_iff)
  have q0: "0 \<le> ?q" using ordered_quantity_nonneg[OF assms(7)] .
  have p1: "products ?d1 = capture_stock (products d) (o_items ord)"
    using handlePaymentCaptured_found(1)[OF assms(3,4,5)] .
  have s1: "stock_of (products ?d1) i sz ds = Some (s - ?q)"
    unfolding p1 using capture_stock_total[OF v assms(7,8)] assms(9) q0 by simp
  have v1: "stock_valid (products ?d1)" using handlePaymentCaptured_valid[OF v] .
  obtain ord1 where o1: "findOrderById (orders ?d1) orderId = Some ord1"
    and i1: "o_items ord1 = o_items ord"
    using handlePaymentCaptured_found(2)[OF assms(3,4,5), of t1] by simp
  have p2: "products (handlePaymentCaptured t2 ?d1 pay) = capture_stock (products ?d1) (o_items ord)"
    using handlePaymentCaptured_found(1)[OF assms(3,4) o1] i1 by simp
  have "stock_of (products (handlePaymentCaptured t2 ?d1 pay)) i sz ds = Some (s - ?q - ?q)"
    unfolding p2 using capture_stock_total[OF v1 assms(7) s1] assms(9) by simp
  then show ?thesis using s1 by (simp add: route)
qed

theorem duplicate_capture_decrements_twice_witness:
  "2 * ordered_quantity (o_items demo_order) ''0000000000000000000000b1'' ''M'' ''rose'' \<le> 20
   \<and> stock_of (products demo_db) ''0000000000000000000000b1'' ''M'' ''rose'' = Some 20
   \<and> stock_of (products (snd (razorpay_webhook demo_platform demo_config 6
         (snd (razorpay_webhook demo_platform demo_config 5 demo_db demo_capture))
         demo_capture))) ''0000000000000000000000b1'' ''M'' ''rose'' = Some 16"
proof -
  have h1: "wh_signature demo_capture =
              Some (hmac_hex demo_platform (webhookSecret demo_config) (wh_body demo_capture))"
    by (simp add: demo_capture_def demo_platform_def demo_config_def)
  have h2: "json_event demo_platform (wh_body demo_capture) = Some (PaymentCaptured demo_payment)"
    by (simp add: demo_capture_def demo_platform_def demo_payment_def)
  have h3: "pay_notes_orderId demo_payment = Some ''0000000000000000000000a1''"
    by (simp add: demo_payment_def)
  have h4: "''0000000000000000000000a1'' \<noteq> []" by simp
  have h5: "findOrderById (orders demo_db) ''0000000000000000000000a1'' = Some demo_order"
    by (simp add: demo_db_def demo_order_def findOrderById_def)
  have h6: "\<forall>p \<in> set (products demo_db). \<forall>v \<in> set (p_variants p). 0 \<le> v_stock v"
    by (simp add: demo_db_def demo_product_def)
  have h7: "\<forall>item \<in> set (o_items demo_order). 0 \<le> oi_quantity item"
    by (simp add: demo_order_def)
  have h8: "stock_of (products demo_db) ''0000000000000000000000b1'' ''M'' ''rose'' = Some 20"
    by (simp add: stock_of_def demo_db_def demo_product_def findProductById_def
          variant_matches_def)
  have q: "ordered_quantity (o_items demo_order) ''0000000000000000000000b1'' ''M'' ''rose'' = 2"
    by (simp add: ordered_quantity_def demo_order_def)
  have h9: "2 * ordered_quantity (o_items demo_order) ''0000000000000000000000b1'' ''M'' ''rose''
              \<le> 20"
    by (simp add: q)
  show ?thesis
    using duplicate_capture_decrements_twice[OF h1 h2 h3 h4 h5 h6 h7 h8 h9, of 5 6] h8 h9
    by (simp add: q)
qed

section \<open>The loop of cart validation\<close>

lemma cart_subtotal_Cons:
  "cart_subtotal ps (item # items) =
     stored_price ps (ci_productId item) * of_int (ci_quantity item) + cart_subtotal ps items"
  by (simp add: cart_subtotal_def)

lemma find_variant_matches:
  "find (variant_matches sz ds) vs = Some v \<Longrightarrow> v_size v = sz \<and> v_design v = ds"
  by (induction vs) (auto simp: variant_matches_def split: if_splits)

lemma validate_items_Inr:
  "validate_items ps items acc sub = Inr (vis, s) \<longleftrightarrow>
     (\<forall>item \<in> set items. \<not> item_unavailable ps item)
     \<and> map Some vis = map Some acc @ map (priced_item ps) items
     \<and> s = sub + cart_subtotal ps items"
proof (induction items arbitrary: acc sub)
  case Nil
  then show ?case by (auto simp: cart_subtotal_def)
next
  case (Cons item items)
  show ?case
  proof (cases "item_unavailable ps item")
    case True
    then have "\<exists>r. validate_items ps (item # items) acc sub = Inl r"
      by (auto simp: item_unavailable_def find_requested_def
          split: option.splits list.splits if_splits)
    with True show ?thesis by auto
  next
    case False
    then obtain p sz ds v where
      p: "findProductById ps (ci_productId item) = Some p" "p_active p"
      and rv: "ci_variant item = Some (sz, ds)"
      and v: "find (variant_matches sz ds) (p_variants p) = Some v"
      and q: "\<not> v_stock v < ci_quantity item"
      by (auto simp: item_unavailable_def split: option.splits)
    from v have ne: "p_variants p \<noteq> []" by auto
    then have fr: "find_requested (ci_variant item) (p_variants p) = Some (Some v)"
      using rv v by (cases "p_variants p") (auto simp: find_requested_def)
    have vm: "v_size v = sz" "v_design v = ds" using find_variant_matches[OF v] by auto
    let ?x = "\<lparr>vi_product = p_id p, vi_title = p_title p, vi_price = p_price p,
                 vi_quantity = ci_quantity item, vi_size = v_size v, vi_design = v_design v,
                 vi_image = image_url (p_images p)\<rparr>"
    have pi: "priced_item ps item = Some
                \<lparr>vi_product = p_id p, vi_title = p_title p, vi_price = p_price p,
                 vi_quantity = ci_quantity item, vi_size = v_size v, vi_design = v_design v,
                 vi_image = image_url (p_images p)\<rparr>"
      using p rv vm by (simp add: priced_item_def)
    have sp: "stored_price ps (ci_productId item) = p_price p"
      using p by (simp add: stored_price_def)
    have step: "validate_items ps (item # items) acc sub =
                  validate_items ps items (acc @ [?x])
                    (sub + p_price p * of_int (ci_quantity item))"
      using p fr q by simp
    show ?thesis
      unfolding step Cons.IH using False by (auto simp: cart_subtotal_Cons sp pi)
  qed
qed

lemma validate_items_Inl:
  "validate_items ps items acc sub = Inl r \<Longrightarrow>
     (\<exists>m. r = Json 400 (Message m)) \<or> r = Json 500 (Message ''Server error'')"
  by (induction items arbitrary: acc sub)
     (auto split: option.splits if_splits)





lemma validate_items_Inl_unavailable:
  "validate_items ps items acc sub = Inl r \<Longrightarrow> \<exists>item \<in> set items. item_unavailable ps item"
proof (induction items arbitrary: acc sub)
  case Nil
  then show ?case by simp
next
  case (Cons item items)
  show ?case
  proof (cases "item_unavailable ps item")
    case True
    then show ?thesis by simp
  next
    case False
    then obtain vi where "priced_item ps item = Some vi"
      by (auto simp: item_unavailable_def priced_item_def split: option.splits)
    then have "validate_items ps (item # items) acc sub \<noteq> Inl r
               \<or> (\<exists>acc' sub'. validate_items ps items acc' sub' = Inl r)"
      using False
      by (auto simp: item_unavailable_def find_requested_def
          split: option.splits list.splits if_splits)
    then show ?thesis using Cons by auto
  qed
qed

lemma cart_validate_200:
  "cart_validate d items = Json 200 b \<longleftrightarrow>
     validate_errors items = []
     \<and> (\<forall>item \<in> set items. \<not> item_unavailable (products d) item)
     \<and> (\<exists>vis. map Some vis = map (priced_item (products d)) items
           \<and> b = (let S = cart_subtotal (products d) items;
                       tax = S * (8 / 100);
                       shipping = (if 50 \<le> S then 0 else 999 / 100)
                   in CartTotals vis
                        (round2 S) (round2 tax) (round2 shipping) (round2 (S + tax + shipping))))"
proof (cases "validate_errors items = []")
  case False
  then show ?thesis by (simp add: cart_validate_def)
next
  case True
  show ?thesis
  proof (cases "validate_items (products d) items [] 0")
    case (Inl r)
    then have "\<not> (\<forall>item \<in> set items. \<not> item_unavailable (products d) item)"
      using validate_items_Inl_unavailable[OF Inl] by blast
    moreover have "r \<noteq> Json 200 b" using validate_items_Inl[OF Inl] by auto
    ultimately show ?thesis using True Inl by (simp add: cart_validate_def)
  next
    case (Inr pr)
    obtain vis s where pr: "pr = (vis, s)" by (cases pr)
    have r: "(\<forall>item \<in> set items. \<not> item_unavailable (products d) item)"
      "map Some vis = map (priced_item (products d)) items"
      "s = cart_subtotal (products d) items"
      using Inr validate_items_Inr[of "products d" items "[]" 0 vis s] by (simp_all add: pr)
    have u: "vis' = vis" if "map Some vis' = map (priced_item (products d)) items" for vis'
    proof -
      have "map Some vis' = map Some vis" using that r(2) by simp
      then show ?thesis by (simp add: inj_map_eq_map)
    qed
    let ?T = "\<lambda>vis. (let S = cart_subtotal (products d) items;
                       tax = S * (8 / 100);
                       shipping = (if 50 \<le> S then 0 else 999 / 100)
                   in CartTotals vis
                        (round2 S) (round2 tax) (round2 shipping) (round2 (S + tax + shipping)))"
    have c: "cart_validate d items = Json 200 (?T vis)"
      using True Inr unfolding cart_validate_def pr r(3) Let_def by simp
    show ?thesis
    proof
      assume "cart_validate d items = Json 200 b"
      then have "b = ?T vis" unfolding c by simp
      with True r(1,2) show "validate_errors items = []
         \<and> (\<forall>item \<in> set items. \<not> item_unavailable (products d) item)
         \<and> (\<exists>vis. map Some vis = map (priced_item (products d)) items \<and> b = ?T vis)"
        by blast
    next
      assume "validate_errors items = []
         \<and> (\<forall>item \<in> set items. \<not> item_unavailable (products d) item)
         \<and> (\<exists>vis. map Some vis = map (priced_item (products d)) items \<and> b = ?T vis)"
      then obtain vis' where v': "map Some vis' = map (priced_item (products d)) items"
        and b: "b = ?T vis'" by blast
      have "vis' = vis" using v' by (rule u)
      with b show "cart_validate d items = Json 200 b" unfolding c by simp
    qed
  qed
qed

lemma validate_errors_without_price:
  "validate_errors (map without_price items) = validate_errors items"
  by (simp add: validate_errors_def filter_map comp_def without_price_def)

lemma validate_items_without_price:
  "validate_items ps (map without_price items) acc sub = validate_items ps items acc sub"
  by (induction items arbitrary: acc sub)
     (auto simp: without_price_def split: option.splits)

lemma cart_validate_without_price:
  "cart_validate d (map without_price items) = cart_validate d items"
  unfolding cart_validate_def validate_errors_without_price validate_items_without_price ..

lemma priced_item_price:
  "priced_item ps item = Some vi \<Longrightarrow> vi_price vi = stored_price ps (ci_productId item)"
  by (auto simp: priced_item_def stored_price_def split: option.splits)


lemma priced_items_price:
  "map Some vis = map (priced_item ps) items \<Longrightarrow>
   map vi_price vis = map (\<lambda>item. stored_price ps (ci_productId item)) items"
proof (induction vis arbitrary: items)
  case Nil
  then show ?case by simp
next
  case (Cons vi vis)
  then obtain item rest where i: "items = item # rest" by (cases items) auto
  with Cons.prems have "priced_item ps item = Some vi"
    "map Some vis = map (priced_item ps) rest" by simp_all
  then show ?case using Cons.IH[of rest] priced_item_price[of ps item vi] i by simp
qed

section \<open>Properties of cart validation\<close>



text \<open>
  Claim C8. Two requests to \<^verbatim>\<open>POST /cart/validate\<close> that differ only in the price
  attached to their items get the same response, and in an accepted cart the price of
  every validated item is the price of the stored product.
\<close>

theorem client_price_ignored:
  assumes "map without_price items1 = map without_price items2"
  shows "cart_validate d items1 = cart_validate d items2
       \<and> (\<forall>vis sub tx ship tot.
            cart_validate d items1 = Json 200 (CartTotals vis sub tx ship tot) \<longrightarrow>
            map vi_price vis = map (\<lambda>item. stored_price (products d) (ci_productId item)) items1)"
proof -
  have "cart_validate d items1 = cart_validate d (map without_price items1)"
    by (simp add: cart_validate_without_price)
  also have "\<dots> = cart_validate d items2"
    unfolding assms by (simp add: cart_validate_without_price)
  finally have same: "cart_validate d items1 = cart_validate d items2" .
  have "map vi_price vis = map (\<lambda>item. stored_price (products d) (ci_productId item)) items1"
    if "cart_validate d items1 = Json 200 (CartTotals vis sub tx ship tot)"
    for vis sub tx ship tot
  proof -
    from that have "map Some vis = map (priced_item (products d)) items1"
      unfolding cart_validate_200 by (auto simp: Let_def)
    then show ?thesis by (rule priced_items_price)
  qed
  with same show ?thesis by blast
qed

theorem client_price_ignored_witness:
  "map without_price [demo_cart_item\<lparr>ci_price := Some (1 / 100)\<rparr>] = map without_price [demo_cart_item]
   \<and> cart_validate demo_db [demo_cart_item\<lparr>ci_price := Some (1 / 100)\<rparr>]
       = cart_validate demo_db [demo_cart_item]
   \<and> cart_validate demo_db [demo_cart_item\<lparr>ci_price := Some (1 / 100)\<rparr>]
       = Json 200 (CartTotals [demo_priced]
           40 (16 / 5) (999 / 100) (5319 / 100))"
proof -
  have h: "map without_price [demo_cart_item\<lparr>ci_price := Some (1 / 100)\<rparr>]
             = map without_price [demo_cart_item]"
    by (simp add: without_price_def)
  have r: "cart_validate demo_db [demo_cart_item] =
     Json 200 (CartTotals [demo_priced]
       40 (16 / 5) (999 / 100) (5319 / 100))"
    by code_simp
  show ?thesis
    using h r client_price_ignored[OF h, of demo_db] by simp
qed




section \<open>The two stock loops\<close>









section \<open>Properties of payment verification\<close>

text \<open>
  Claim C2, as stated, fails for a request that is not signed in: \<^verbatim>\<open>requireAuth\<close>
  answers it before the handler runs, so a forged signature is met with 401 (or a
  redirect to the login page), not 400.
\<close>

theorem forged_payment_signature_unauthenticated:
  "razorpay_signature demo_anonymous \<noteq>
     hmac_hex demo_platform (keySecret demo_config)
       (razorpay_order_id demo_anonymous @ ''|'' @ razorpay_payment_id demo_anonymous)
   \<and> verify_payment demo_platform demo_config demo_db demo_anonymous =
       (Json 401 (Message ''Authentication required''), demo_db)"
  by code_simp

text \<open>
  Claim C2, amended. A request to \<^verbatim>\<open>POST /cart/verify-payment\<close> whose signature
  differs from the hex HMAC of \<^verbatim>\<open>razorpay_order_id|razorpay_payment_id\<close> under the
  key secret changes no order and no product. It is answered 400 when the requester is
  signed in, and 401 or a redirect to the login page otherwise. Only a matching
  signature can lead to confirmation.
\<close>

theorem forged_payment_signature_rejected:
  assumes "razorpay_signature req \<noteq>
     hmac_hex pf (keySecret cfg) (razorpay_order_id req @ ''|'' @ razorpay_payment_id req)"
  shows "snd (verify_payment pf cfg d req) = d
       \<and> (case vr_user req of
            Some uid \<Rightarrow> \<exists>b. fst (verify_payment pf cfg d req) = Json 400 b
          | None \<Rightarrow>
              fst (verify_payment pf cfg d req) = Json 401 (Message ''Authentication required'')
              \<or> fst (verify_payment pf cfg d req) = RedirectTo ''/auth/login'')"
  using assms by (auto simp: verify_payment_def Let_def split: option.splits)

theorem forged_payment_signature_rejected_witness:
  "razorpay_signature demo_forged \<noteq>
     hmac_hex demo_platform (keySecret demo_config)
       (razorpay_order_id demo_forged @ ''|'' @ razorpay_payment_id demo_forged)
   \<and> vr_user demo_forged = Some ''0000000000000000000000c1''
   \<and> snd (verify_payment demo_platform demo_config demo_db demo_forged) = demo_db
   \<and> (\<exists>b. fst (verify_payment demo_platform demo_config demo_db demo_forged) = Json 400 b)"
proof -
  have h: "razorpay_signature demo_forged \<noteq>
     hmac_hex demo_platform (keySecret demo_config)
       (razorpay_order_id demo_forged @ ''|'' @ razorpay_payment_id demo_forged)"
    by code_simp
  have u: "vr_user demo_forged = Some ''0000000000000000000000c1''"
    by code_simp
  show ?thesis
    using h u forged_payment_signature_rejected[OF h, of demo_db] by simp
qed







section \<open>Writing and reading numbers\<close>

lemma digit_table:
  "list_all (\<lambda>d. \<not> is_js_space (digit_char d) \<and> digit_char d \<noteq> CHR ''-''
       \<and> digit_char d \<noteq> CHR ''+'' \<and> digit_char d \<noteq> CHR ''x'' \<and> digit_char d \<noteq> CHR ''X''
       \<and> digit_value (digit_char d) = Some d \<and> is_digit 10 (digit_char d)) [0 ..< 10]"
  by code_simp

lemma digit_char_props:
  assumes "d < 10"
  shows "\<not> is_js_space (digit_char d)" "digit_char d \<noteq> CHR ''-''" "digit_char d \<noteq> CHR ''+''"
    "digit_char d \<noteq> CHR ''x''" "digit_char d \<noteq> CHR ''X''"
    "digit_value (digit_char d) = Some d" "is_digit 10 (digit_char d)"
proof -
  have "d \<in> set [0 ..< 10]" using assms by simp
  then have "\<not> is_js_space (digit_char d) \<and> digit_char d \<noteq> CHR ''-''
       \<and> digit_char d \<noteq> CHR ''+'' \<and> digit_char d \<noteq> CHR ''x'' \<and> digit_char d \<noteq> CHR ''X''
       \<and> digit_value (digit_char d) = Some d \<and> is_digit 10 (digit_char d)"
    using digit_table unfolding list_all_iff by blast
  then show "\<not> is_js_space (digit_char d)" "digit_char d \<noteq> CHR ''-''" "digit_char d \<noteq> CHR ''+''"
    "digit_char d \<noteq> CHR ''x''" "digit_char d \<noteq> CHR ''X''"
    "digit_value (digit_char d) = Some d" "is_digit 10 (digit_char d)"
    by blast+
qed

lemma digit_char_mod: "digit_char (d mod 10) = digit_char d"
  by (simp add: digit_char_def)

lemma parseInt_digits3:
  assumes "a < 10" "b < 10" "c < 10"
  shows "parseInt [digit_char a, digit_char b, digit_char c] = Some (int (100 * a + 10 * b + c))"
  using digit_char_props[OF assms(1)] digit_char_props[OF assms(2)] digit_char_props[OF assms(3)]
  by (simp add: parseInt_def Let_def)

lemma split_three_digits:
  "100 * (n div 100) + 10 * (n div 10 mod 10) + n mod 10 = (n::nat)"
proof -
  have a: "n = 10 * (n div 10) + n mod 10" by simp
  have b: "n div 10 = 10 * (n div 10 div 10) + n div 10 mod 10" by simp
  have c: "n div 10 div 10 = n div 100" by (simp add: div_mult2_eq[symmetric])
  show ?thesis using a b c by linarith
qed

lemma parseInt_three_digits:
  assumes "n < 1000"
  shows "parseInt (three_digits n) = Some (int n)"
proof -
  have t: "three_digits n =
             [digit_char (n div 100), digit_char (n div 10 mod 10), digit_char (n mod 10)]"
    by (simp add: three_digits_def digit_char_mod)
  have d: "n div 100 < 10" "n div 10 mod 10 < 10" "n mod 10 < 10" using assms by auto
  show ?thesis
    unfolding t parseInt_digits3[OF d] split_three_digits ..
qed

lemma digit_char_0: "digit_char 0 = CHR ''0''"
  by (simp add: digit_char_def)

lemma dec_nat_1: "n < 10 \<Longrightarrow> dec_nat n = [digit_char n]"
  by (subst dec_nat.simps) simp

lemma dec_nat_2: "10 \<le> n \<Longrightarrow> n < 100 \<Longrightarrow> dec_nat n = [digit_char (n div 10), digit_char n]"
  by (subst dec_nat.simps) (simp add: dec_nat_1 digit_char_mod)

lemma dec_nat_3:
  assumes "100 \<le> n" "n < 1000"
  shows "dec_nat n = [digit_char (n div 100), digit_char (n div 10), digit_char n]"
proof -
  have a: "10 \<le> n div 10" "n div 10 < 100" using assms by auto
  have b: "n div 10 div 10 = n div 100" by (simp add: div_mult2_eq[symmetric])
  have "dec_nat n = dec_nat (n div 10) @ [digit_char (n mod 10)]"
    using assms by (subst dec_nat.simps) simp
  then show ?thesis using dec_nat_2[OF a] b by (simp add: digit_char_mod)
qed

lemma dec_nat_last2:
  "10 \<le> n \<Longrightarrow> \<exists>pre. dec_nat n = pre @ [digit_char (n div 10), digit_char n]"
proof -
  assume n: "10 \<le> n"
  have "dec_nat n = dec_nat (n div 10) @ [digit_char n]"
    using n by (subst dec_nat.simps) (simp add: digit_char_mod)
  moreover have "\<exists>pre. dec_nat (n div 10) = pre @ [digit_char (n div 10)]"
    by (subst dec_nat.simps) (auto simp: digit_char_mod)
  ultimately show ?thesis by auto
qed

lemma pad2: "n < 100 \<Longrightarrow> padStart 2 (CHR ''0'') (dec_nat n) = two_digits n"
  by (cases "n < 10")
     (simp_all add: padStart_def two_digits_def dec_nat_1 dec_nat_2 digit_char_0[symmetric]
        del: digit_char_0)

lemma pad3: "n < 1000 \<Longrightarrow> padStart 3 (CHR ''0'') (dec_nat n) = three_digits n"
proof -
  assume n: "n < 1000"
  consider "n < 10" | "10 \<le> n" "n < 100" | "100 \<le> n" by linarith
  then show ?thesis
  proof cases
    case 1
    then have "n div 100 = 0" "n div 10 = 0" by auto
    with 1 show ?thesis
      by (simp add: padStart_def three_digits_def dec_nat_1 digit_char_0 numeral_3_eq_3)
  next
    case 2
    then have "n div 100 = 0" by auto
    with 2 show ?thesis
      by (simp add: padStart_def three_digits_def dec_nat_2 digit_char_0)
  next
    case 3
    with n show ?thesis by (simp add: padStart_def three_digits_def dec_nat_3)
  qed
qed

lemma year2: "10 \<le> y \<Longrightarrow> slice_last 2 (dec_nat y) = two_digits y"
  using dec_nat_last2[of y] by (auto simp: slice_last_def two_digits_def)

lemma slice_last_append: "length t = k \<Longrightarrow> slice_last k (pre @ t) = t"
  by (simp add: slice_last_def)

lemma length_three_digits: "length (three_digits n) = 3"
  by (simp add: three_digits_def)

lemma latest_foldl:
  assumes "lo \<in> set (x # xs)"
    and "\<forall>y \<in> set (x # xs). y \<noteq> lo \<longrightarrow> o_createdAt y < o_createdAt lo"
  shows "foldl (\<lambda>best y. if o_createdAt best < o_createdAt y then y else best) x xs = lo"
  using assms
proof (induction xs arbitrary: x)
  case Nil
  then show ?case by simp
next
  case (Cons y ys)
  let ?b = "if o_createdAt x < o_createdAt y then y else x"
  have "lo \<in> set (?b # ys)"
    using Cons.prems by (cases "x = lo"; cases "y = lo") (auto simp: not_less)
  moreover have "\<forall>z \<in> set (?b # ys). z \<noteq> lo \<longrightarrow> o_createdAt z < o_createdAt lo"
    using Cons.prems by auto
  ultimately have "foldl (\<lambda>best y. if o_createdAt best < o_createdAt y then y else best) ?b ys = lo"
    by (rule Cons.IH)
  then show ?case by simp
qed

lemma lastOrderOfDay_latest:
  assumes "lo \<in> set os" "today \<le> o_createdAt lo" "o_createdAt lo < tomorrow"
    and "\<forall>y \<in> set os. y \<noteq> lo \<and> today \<le> o_createdAt y \<and> o_createdAt y < tomorrow
           \<longrightarrow> o_createdAt y < o_createdAt lo"
  shows "lastOrderOfDay os today tomorrow = Some lo"
proof -
  let ?fs = "filter (\<lambda>x. today \<le> o_createdAt x \<and> o_createdAt x < tomorrow) os"
  have m: "lo \<in> set ?fs" using assms(1,2,3) by simp
  then obtain x xs where fs: "?fs = x # xs" by (cases ?fs) auto
  have "\<forall>y \<in> set (x # xs). y \<noteq> lo \<longrightarrow> o_createdAt y < o_createdAt lo"
    using assms(4) unfolding fs[symmetric] by auto
  moreover have "lo \<in> set (x # xs)" using m fs by simp
  ultimately show ?thesis
    unfolding lastOrderOfDay_def fs using latest_foldl[of lo x xs] by simp
qed

lemma lastOrderOfDay_none:
  assumes "\<forall>y \<in> set os. \<not> (today \<le> o_createdAt y \<and> o_createdAt y < tomorrow)"
  shows "lastOrderOfDay os today tomorrow = None"
proof -
  have "filter (\<lambda>x. today \<le> o_createdAt x \<and> o_createdAt x < tomorrow) os = []"
    using assms by (auto simp: filter_empty_conv)
  then show ?thesis by (simp add: lastOrderOfDay_def)
qed

lemma order_pre_save_number:
  assumes "isNew" "o_orderNumber this = None \<or> o_orderNumber this = Some []"
    and "10 \<le> c_fullYear clk" "c_month clk < 12" "c_date clk < 100"
  shows "o_orderNumber (order_pre_save clk os isNew this) =
           Some (''ORD'' @ two_digits (c_fullYear clk) @ two_digits (c_month clk + 1)
                 @ two_digits (c_date clk)
                 @ padStart 3 (CHR ''0'')
                     (number_toString (next_sequence
                        (lastOrderOfDay os (c_today clk) (c_tomorrow clk)))))"
proof -
  have m: "Suc (c_month clk) < 100" using assms(4) by simp
  show ?thesis
    using assms(1,2) by (auto simp: order_pre_save_def Let_def year2[OF assms(3)] pad2[OF m]
        pad2[OF assms(5)])
qed

lemma first_of_day: "padStart 3 (CHR ''0'') (number_toString (Some 1)) = ''001''"
  by code_simp

lemma next_of_day:
  assumes "n < 999"
  shows "padStart 3 (CHR ''0'') (number_toString (Some (int n + 1))) = three_digits (n + 1)"
proof -
  have "nat (int n + 1) = Suc n" by linarith
  then have "number_toString (Some (int n + 1)) = dec_nat (Suc n)"
    by (simp add: number_toString_def int_toString_def)
  then show ?thesis using pad3[of "Suc n"] assms by simp
qed

lemma next_sequence_digits:
  assumes "o_orderNumber lo = Some (pre @ three_digits n)" "n < 1000"
  shows "next_sequence (Some lo) = Some (int n + 1)"
proof -
  have "slice_last 3 (pre @ three_digits n) = three_digits n"
    by (rule slice_last_append) (rule length_three_digits)
  moreover have "three_digits n \<noteq> []" by (simp add: three_digits_def)
  ultimately show ?thesis
    using assms by (simp add: next_sequence_def parseInt_three_digits)
qed

section \<open>Properties of the order number\<close>

text \<open>
  Claim C7, as stated, fails when the last order of the day ends in 999: the next
  sequence is 1000 and \<^verbatim>\<open>padStart(3, '0')\<close> does not shorten it, so the order number
  ends in four digits.
\<close>

theorem order_number_overflows_three_digits:
  "lastOrderOfDay [demo_order] (c_today demo_clock) (c_tomorrow demo_clock) = Some demo_order
   \<and> o_orderNumber demo_order = Some ''ORD261102999''
   \<and> o_orderNumber (order_pre_save demo_clock [demo_order] True demo_new) =
       Some ''ORD2611021000''"
  by code_simp

text \<open>
  Claim C7, amended. For a new order saved without an order number, on a date whose
  year has at least two digits: the order number is \<^verbatim>\<open>ORD\<close>, the last two digits
  of the year, the month and the day in two digits each, and a sequence in three
  digits. The sequence is 001 when no order was created since local midnight; when
  the order created last since local midnight has a number that ends in the three
  digits of \<open>n\<close> and \<open>n\<close> is below 999, the sequence is \<open>n + 1\<close>.
\<close>

theorem order_number_format:
  assumes "isNew" and "o_orderNumber this = None \<or> o_orderNumber this = Some []"
    and "10 \<le> c_fullYear clk" and "c_month clk < 12" and "c_date clk < 100"
  shows "((\<forall>y \<in> set os. \<not> (c_today clk \<le> o_createdAt y \<and> o_createdAt y < c_tomorrow clk)) \<longrightarrow>
            o_orderNumber (order_pre_save clk os isNew this) =
              Some (''ORD'' @ two_digits (c_fullYear clk) @ two_digits (c_month clk + 1)
                    @ two_digits (c_date clk) @ ''001''))
       \<and> (\<forall>lo pre n.
            lo \<in> set os \<and> c_today clk \<le> o_createdAt lo \<and> o_createdAt lo < c_tomorrow clk
            \<and> (\<forall>y \<in> set os. y \<noteq> lo \<and> c_today clk \<le> o_createdAt y \<and> o_createdAt y < c_tomorrow clk
                   \<longrightarrow> o_createdAt y < o_createdAt lo)
            \<and> o_orderNumber lo = Some (pre @ three_digits n) \<and> n < 999 \<longrightarrow>
            o_orderNumber (order_pre_save clk os isNew this) =
              Some (''ORD'' @ two_digits (c_fullYear clk) @ two_digits (c_month clk + 1)
                    @ two_digits (c_date clk) @ three_digits (n + 1)))"
proof (intro conjI allI impI)
  assume "\<forall>y \<in> set os. \<not> (c_today clk \<le> o_createdAt y \<and> o_createdAt y < c_tomorrow clk)"
  then have "lastOrderOfDay os (c_today clk) (c_tomorrow clk) = None"
    by (rule lastOrderOfDay_none)
  then show "o_orderNumber (order_pre_save clk os isNew this) =
              Some (''ORD'' @ two_digits (c_fullYear clk) @ two_digits (c_month clk + 1)
                    @ two_digits (c_date clk) @ ''001'')"
    unfolding order_pre_save_number[OF assms] by (simp add: next_sequence_def first_of_day)
next
  fix lo pre n
  assume a: "lo \<in> set os \<and> c_today clk \<le> o_createdAt lo \<and> o_createdAt lo < c_tomorrow clk
            \<and> (\<forall>y \<in> set os. y \<noteq> lo \<and> c_today clk \<le> o_createdAt y \<and> o_createdAt y < c_tomorrow clk
                   \<longrightarrow> o_createdAt y < o_createdAt lo)
            \<and> o_orderNumber lo = Some (pre @ three_digits n) \<and> n < 999"
  then have l: "lastOrderOfDay os (c_today clk) (c_tomorrow clk) = Some lo"
    using lastOrderOfDay_latest[of lo os "c_today clk" "c_tomorrow clk"] by blast
  have s: "next_sequence (Some lo) = Some (int n + 1)"
    using next_sequence_digits[of lo pre n] a by simp
  show "o_orderNumber (order_pre_save clk os isNew this) =
              Some (''ORD'' @ two_digits (c_fullYear clk) @ two_digits (c_month clk + 1)
                    @ two_digits (c_date clk) @ three_digits (n + 1))"
    unfolding order_pre_save_number[OF assms] l s using next_of_day[of n] a by simp
qed

theorem order_number_format_witness:
  "o_orderNumber demo_earlier = Some (''ORD261102'' @ three_digits 41)
   \<and> o_orderNumber (order_pre_save demo_clock [demo_earlier] True demo_new) =
       Some ''ORD261102042''
   \<and> o_orderNumber (order_pre_save demo_clock [] True demo_new) = Some ''ORD261102001''"
proof -
  have h1: "True" by simp
  have h2: "o_orderNumber demo_new = None \<or> o_orderNumber demo_new = Some []" by code_simp
  have h3: "10 \<le> c_fullYear demo_clock" by code_simp
  have h4: "c_month demo_clock < 12" by code_simp
  have h5: "c_date demo_clock < 100" by code_simp
  have e: "o_orderNumber demo_earlier = Some (''ORD261102'' @ three_digits 41)" by code_simp
  have r: "c_today demo_clock \<le> o_createdAt demo_earlier"
    "o_createdAt demo_earlier < c_tomorrow demo_clock" by code_simp+
  have d: "two_digits (c_fullYear demo_clock) = ''26''"
    "two_digits (Suc (c_month demo_clock)) = ''11''"
    "two_digits (c_date demo_clock) = ''02''" "three_digits 42 = ''042''"
    by code_simp+
  note t = order_number_format[OF h1 h2 h3 h4 h5]
  have a: "o_orderNumber (order_pre_save demo_clock [] True demo_new) = Some ''ORD261102001''"
    using t[of "[]"] by (simp add: d)
  have p: "demo_earlier \<in> set [demo_earlier]
            \<and> c_today demo_clock \<le> o_createdAt demo_earlier
            \<and> o_createdAt demo_earlier < c_tomorrow demo_clock
            \<and> (\<forall>y \<in> set [demo_earlier]. y \<noteq> demo_earlier
                   \<and> c_today demo_clock \<le> o_createdAt y \<and> o_createdAt y < c_tomorrow demo_clock
                   \<longrightarrow> o_createdAt y < o_createdAt demo_earlier)
            \<and> o_orderNumber demo_earlier = Some (''ORD261102'' @ three_digits 41)
            \<and> (41::nat) < 999"
    using e r by simp
  have b: "o_orderNumber (order_pre_save demo_clock [demo_earlier] True demo_new) =
       Some ''ORD261102042''"
    using t[of "[demo_earlier]", THEN conjunct2, rule_format, OF p] by (simp add: d)
  show ?thesis using e a b by simp
qed

end
